theory Spec2Isabelle
  imports Main "HOL-Library.Word"
begin

section \<open>The image platform of the OpenEPaperLink integration\<close>

text \<open>
  A shallow embedding of \<^verbatim>\<open>custom_components/open_epaper_link/image.py\<close>: the set-up
  routine \<^verbatim>\<open>async_setup_entry\<close> with its closure \<^verbatim>\<open>async_add_image_entity\<close>, and the
  class \<^verbatim>\<open>OpenEPaperLinkImageEntity\<close>. Mutation is explicit state passing, an exception is
  a value, and everything the module reads from outside (the hub, the file system, the
  constants and helpers of its sibling modules) is a parameter.
\<close>

subsection \<open>Values and the collaborators of the module\<close>

text \<open>The Python values a tag record of the hub can hold.\<close>

datatype pyval = PNone | PInt int | PStr string

type_synonym bytes = "8 word list"

text \<open>
  The exceptions this module can meet: \<^verbatim>\<open>OSError\<close> (with the text of \<^verbatim>\<open>str(err)\<close>),
  which \<^verbatim>\<open>async_image\<close> catches; \<^verbatim>\<open>TypeError\<close>, raised by a call whose arguments do not
  fit the signature of the callee; and any other.
\<close>

datatype exn = OSError string | TypeError string | OtherException string

text \<open>
  What \<^verbatim>\<open>image.py\<close> imports from \<^verbatim>\<open>const\<close>, \<^verbatim>\<open>tag_types\<close> and \<^verbatim>\<open>util\<close>. None of these
  modules is part of the sources at hand, so the two constants and the two helpers are
  parameters; \<^verbatim>\<open>get_image_path\<close> is taken with its \<^verbatim>\<open>hass\<close> argument applied.
\<close>

record env =
  DOMAIN :: string
  SIGNAL_TAG_IMAGE_UPDATE :: string
  get_hw_string :: "pyval \<Rightarrow> string"
  get_image_path :: "string \<Rightarrow> string"

text \<open>
  Modelled from the spec: the class \<^verbatim>\<open>Hub\<close> of \<^verbatim>\<open>hub.py\<close>, which is not part of the
  sources at hand. The spec gives its interface: \<^verbatim>\<open>online\<close> (a boolean), \<^verbatim>\<open>tags\<close> (the
  known identifiers, iterated in order by the set-up routine, hence a list here),
  \<^verbatim>\<open>get_blacklisted_tags()\<close> (identifiers) and \<^verbatim>\<open>get_tag_data(id)\<close> (a record, read with
  \<^verbatim>\<open>.get\<close> by the entity, hence a dictionary here). The hub is owned and changed
  elsewhere: every operation of this module takes the hub as it is at the time of the call.
\<close>

record hub =
  online :: bool
  tags :: "string list"
  blacklisted_tags :: "string list"
  tag_data :: "string \<Rightarrow> (string \<rightharpoonup> pyval)"

definition get_blacklisted_tags :: "hub \<Rightarrow> string list" where
  "get_blacklisted_tags h = blacklisted_tags h"

definition get_tag_data :: "hub \<Rightarrow> string \<Rightarrow> (string \<rightharpoonup> pyval)" where
  "get_tag_data h tag = tag_data h tag"

text \<open>Python's \<^verbatim>\<open>d.get(key, default)\<close>.\<close>

definition dict_get :: "('k \<rightharpoonup> 'v) \<Rightarrow> 'k \<Rightarrow> 'v \<Rightarrow> 'v" where
  "dict_get d k dflt = (case d k of None \<Rightarrow> dflt | Some v \<Rightarrow> v)"

subsection \<open>The entity\<close>

text \<open>
  The subscriptions of the host's dispatcher are named by handles: the value
  \<^verbatim>\<open>async_dispatcher_connect\<close> returns, which removes the subscription when called.
\<close>

type_synonym handle = nat

record device_info =
  identifiers :: "(string \<times> string) set"
  name :: pyval
  manufacturer :: string
  model :: string
  via_device :: "string \<times> string"

text \<open>
  The fields \<^verbatim>\<open>__init__\<close> sets (\<^verbatim>\<open>_tag_mac\<close>, \<^verbatim>\<open>_attr_unique_id\<close>, \<^verbatim>\<open>_attr_device_info\<close>,
  \<^verbatim>\<open>_image_path\<close>), and two fields of the host's base class that the methods use:
  \<^verbatim>\<open>entity_id\<close> (unset until the host registers the entity) and the list of callbacks
  handed to \<^verbatim>\<open>async_on_remove\<close>. The field \<^verbatim>\<open>_hub\<close> is a reference to the shared hub; the
  methods that read it take the hub as an argument. There is no field for availability.
\<close>

record entity =
  tag_mac :: string
  attr_unique_id :: string
  attr_device_info :: device_info
  image_path :: "string option"
  entity_id :: "string option"
  on_remove :: "handle list"

text \<open>
  The constructor of the host's base class, which \<^verbatim>\<open>__init__\<close> calls first, as
  \<^verbatim>\<open>super().__init__()\<close>. The host declares it as
  \<^verbatim>\<open>ImageEntity.__init__(self, hass, verify_ssl=False)\<close>: the argument \<^verbatim>\<open>hass\<close> is
  required. The model takes the positional arguments of the call, \<^verbatim>\<open>self\<close> apart, and
  raises \<^verbatim>\<open>TypeError\<close> where Python does.
\<close>

definition ImageEntity_init :: "pyval list \<Rightarrow> exn + unit" where
  "ImageEntity_init args =
     (if args = []
      then Inl (TypeError ''ImageEntity.__init__() missing 1 required positional argument: hass'')
      else if 2 < length args
      then Inl (TypeError ''ImageEntity.__init__() takes from 2 to 3 positional arguments'')
      else Inr ())"

text \<open>The assignments of \<^verbatim>\<open>__init__\<close> that follow the call of the base constructor.\<close>

definition init_attributes :: "env \<Rightarrow> hub \<Rightarrow> string \<Rightarrow> entity" where
  "init_attributes ev h mac =
     (let tag_data = get_tag_data h mac;
          hw_type = dict_get tag_data ''hw_type'' (PInt 0)
      in \<lparr> tag_mac = mac,
           attr_unique_id = mac @ ''_content'',
           attr_device_info =
             \<lparr> identifiers = {(DOMAIN ev, mac)},
               name = dict_get tag_data ''tag_name'' (PStr mac),
               manufacturer = ''OpenEPaperLink'',
               model = get_hw_string ev hw_type,
               via_device = (DOMAIN ev, ''ap'') \<rparr>,
           image_path = None,
           entity_id = None,
           on_remove = [] \<rparr>)"

text \<open>
  \<^verbatim>\<open>OpenEPaperLinkImageEntity(hub, tag_mac)\<close>: the entity, or the exception that the
  constructor raises. The base constructor is called without an argument.
\<close>

definition OpenEPaperLinkImageEntity :: "env \<Rightarrow> hub \<Rightarrow> string \<Rightarrow> exn + entity" where
  "OpenEPaperLinkImageEntity ev h mac =
     (case ImageEntity_init [] of
        Inl err \<Rightarrow> Inl err
      | Inr u \<Rightarrow> Inr (init_attributes ev h mac))"

definition available :: "hub \<Rightarrow> entity \<Rightarrow> bool" where
  "available h e =
     (online h
      \<and> tag_mac e \<in> set (tags h)
      \<and> tag_mac e \<notin> set (get_blacklisted_tags h))"

subsection \<open>Reading the image\<close>

text \<open>
  The file system as \<^verbatim>\<open>async_image\<close> sees it: \<^verbatim>\<open>os.path.exists\<close>, and the outcome of
  opening and reading a path. The two are independent: a path that exists can fail to be
  read (a directory, a file without read permission, a file removed in between).
\<close>

record filesystem =
  path_exists :: "string \<Rightarrow> bool"
  read_file :: "string \<Rightarrow> exn + bytes"

text \<open>A call of \<^verbatim>\<open>_LOGGER.error\<close>: the format string and its arguments, rendered.\<close>

datatype log_record = Log_error string "string list"

definition py_str :: "string option \<Rightarrow> string" where
  "py_str v = (case v of None \<Rightarrow> ''None'' | Some s \<Rightarrow> s)"

text \<open>
  \<^verbatim>\<open>async_image\<close> returns the bytes or \<^verbatim>\<open>None\<close>, or raises; it may assign \<^verbatim>\<open>_image_path\<close>
  and may log. The model returns the outcome, the entity after the call and the records
  logged by the call. The executor job is awaited, so what the job returns or raises is
  what the \<^verbatim>\<open>try\<close> block sees.
\<close>

definition async_image ::
  "env \<Rightarrow> filesystem \<Rightarrow> entity \<Rightarrow> (exn + bytes option) \<times> entity \<times> log_record list" where
  "async_image ev fs e =
     (let e1 = (if image_path e = None
                then e\<lparr>image_path := Some (get_image_path ev (DOMAIN ev @ ''.'' @ tag_mac e))\<rparr>
                else e)
      in case image_path e1 of
           None \<Rightarrow> (Inl (TypeError ''expected str, bytes or os.PathLike object, not NoneType''), e1, [])
         | Some p \<Rightarrow>
             if \<not> path_exists fs p then (Inr None, e1, [])
             else (case read_file fs p of
                     Inr content \<Rightarrow> (Inr (Some content), e1, [])
                   | Inl (OSError msg) \<Rightarrow>
                       (Inr None, e1,
                        [Log_error ''Could not read image file for %s: %s''
                           [py_str (entity_id e1), msg]])
                   | Inl err \<Rightarrow> (Inl err, e1, [])))"

text \<open>The path the accessor works on: the stored one, or else the one it resolves.\<close>

definition resolved_path :: "env \<Rightarrow> entity \<Rightarrow> string" where
  "resolved_path ev e =
     (case image_path e of
        None \<Rightarrow> get_image_path ev (DOMAIN ev @ ''.'' @ tag_mac e)
      | Some p \<Rightarrow> p)"

subsection \<open>The host: dispatcher, entity platform, state writes\<close>

text \<open>
  The callables this module hands to the dispatcher: the closure \<^verbatim>\<open>async_add_image_entity\<close>
  of the set-up routine, and the bound methods \<^verbatim>\<open>async_write_ha_state\<close> and
  \<^verbatim>\<open>_handle_blacklist_update\<close> of an entity, named by the entity's \<^verbatim>\<open>_tag_mac\<close>.
\<close>

datatype callback =
    Add_image_entity
  | Async_write_ha_state string
  | Handle_blacklist_update string

fun owner :: "callback \<Rightarrow> string option" where
  "owner Add_image_entity = None"
| "owner (Async_write_ha_state mac) = Some mac"
| "owner (Handle_blacklist_update mac) = Some mac"

text \<open>
  The state this module changes, apart from the entities themselves: the dispatcher's
  table of subscriptions and the next handle it gives out, the state writes of the
  entities (one entry, the entity's \<^verbatim>\<open>_tag_mac\<close>, for each call of
  \<^verbatim>\<open>async_write_ha_state\<close>), the calls of \<^verbatim>\<open>async_add_entities\<close> with their argument,
  the handles given to \<^verbatim>\<open>entry.async_on_unload\<close>, and the set \<^verbatim>\<open>added_entities\<close> of the
  closure.
\<close>

record system =
  dispatcher :: "(handle \<times> string \<times> callback) list"
  next_handle :: handle
  state_writes :: "string list"
  add_entities_calls :: "entity list list"
  on_unload :: "handle list"
  added_entities :: "string set"

text \<open>
  Modelled from the spec: the host's dispatcher and entity life cycle, which are not part of
  the sources at hand. The spec gives the contract: \<^verbatim>\<open>subscribe(topic, callback)\<close> returns an
  unsubscribe handle, a notification on a topic is delivered to the callbacks subscribed to
  it, and an entity that is detached releases the handles it holds. A callback that raises,
  be it for the wrong number of arguments or in its body, does not stop the dispatcher: the
  error is contained, and what the callback did before it raised stays.
\<close>

definition async_dispatcher_connect :: "string \<Rightarrow> callback \<Rightarrow> system \<Rightarrow> handle \<times> system" where
  "async_dispatcher_connect signal target s =
     (next_handle s,
      s\<lparr>dispatcher := dispatcher s @ [(next_handle s, signal, target)],
        next_handle := Suc (next_handle s)\<rparr>)"

definition unsubscribe :: "handle \<Rightarrow> system \<Rightarrow> system" where
  "unsubscribe hdl s = s\<lparr>dispatcher := filter (\<lambda>sub. fst sub \<noteq> hdl) (dispatcher s)\<rparr>"

definition async_write_ha_state :: "string \<Rightarrow> system \<Rightarrow> system" where
  "async_write_ha_state mac s = s\<lparr>state_writes := state_writes s @ [mac]\<rparr>"

definition async_add_entities :: "entity list \<Rightarrow> system \<Rightarrow> system" where
  "async_add_entities es s = s\<lparr>add_entities_calls := add_entities_calls s @ [es]\<rparr>"

definition async_on_unload :: "handle \<Rightarrow> system \<Rightarrow> system" where
  "async_on_unload hdl s = s\<lparr>on_unload := on_unload s @ [hdl]\<rparr>"

definition async_on_remove :: "handle \<Rightarrow> entity \<Rightarrow> entity" where
  "async_on_remove hdl e = e\<lparr>on_remove := on_remove e @ [hdl]\<rparr>"

text \<open>Detaching an entity: the host calls the callbacks of \<^verbatim>\<open>async_on_remove\<close>, last first.\<close>

definition async_remove :: "entity \<Rightarrow> system \<Rightarrow> entity \<times> system" where
  "async_remove e s = (e\<lparr>on_remove := []\<rparr>, foldl (\<lambda>s' hdl. unsubscribe hdl s') s (rev (on_remove e)))"

subsection \<open>The set-up routine\<close>

text \<open>
  The closure returns nothing or raises, and leaves a state behind in either case: the
  outcome is the exception raised, if any, with the state after the call. The constructor
  is called before anything is registered or recorded.
\<close>

definition async_add_image_entity ::
  "env \<Rightarrow> hub \<Rightarrow> string \<Rightarrow> system \<Rightarrow> exn option \<times> system" where
  "async_add_image_entity ev h mac s =
     (if mac \<in> added_entities s then (None, s)
      else if mac = ''ap'' \<or> mac \<in> set (get_blacklisted_tags h) then (None, s)
      else (case OpenEPaperLinkImageEntity ev h mac of
              Inl err \<Rightarrow> (Some err, s)
            | Inr entity \<Rightarrow>
                (let s1 = async_add_entities [entity] s
                 in (None, s1\<lparr>added_entities := insert mac (added_entities s1)\<rparr>))))"

text \<open>The loop over \<^verbatim>\<open>hub.tags\<close>: an exception of the closure ends it.\<close>

fun add_known_tags :: "env \<Rightarrow> hub \<Rightarrow> string list \<Rightarrow> system \<Rightarrow> exn option \<times> system" where
  "add_known_tags ev h [] s = (None, s)"
| "add_known_tags ev h (mac # macs) s =
     (case async_add_image_entity ev h mac s of
        (Some err, s') \<Rightarrow> (Some err, s')
      | (None, s') \<Rightarrow> add_known_tags ev h macs s')"

text \<open>
  \<^verbatim>\<open>async_setup_entry\<close>: an exception of the loop leaves the routine before it subscribes.
\<close>

definition async_setup_entry :: "env \<Rightarrow> hub \<Rightarrow> system \<Rightarrow> exn option \<times> system" where
  "async_setup_entry ev h s =
     (let s0 = s\<lparr>added_entities := {}\<rparr>
      in case add_known_tags ev h (tags h) s0 of
           (Some err, s1) \<Rightarrow> (Some err, s1)
         | (None, s1) \<Rightarrow>
             (let (hdl, s2) = async_dispatcher_connect
                                (DOMAIN ev @ ''_tag_discovered'') Add_image_entity s1
              in (None, async_on_unload hdl s2)))"

subsection \<open>The entity's subscriptions\<close>

definition handle_blacklist_update :: "string \<Rightarrow> system \<Rightarrow> system" where
  "handle_blacklist_update mac s = async_write_ha_state mac s"

definition async_added_to_hass :: "env \<Rightarrow> entity \<Rightarrow> system \<Rightarrow> entity \<times> system" where
  "async_added_to_hass ev e s =
     (let (hd1, s1) = async_dispatcher_connect
                        (SIGNAL_TAG_IMAGE_UPDATE ev @ ''_'' @ tag_mac e)
                        (Async_write_ha_state (tag_mac e)) s;
          e1 = async_on_remove hd1 e;
          (hd2, s2) = async_dispatcher_connect
                        (DOMAIN ev @ ''_connection_status'')
                        (Async_write_ha_state (tag_mac e)) s1;
          e2 = async_on_remove hd2 e1;
          (hd3, s3) = async_dispatcher_connect
                        (DOMAIN ev @ ''_blacklist_update'')
                        (Handle_blacklist_update (tag_mac e)) s2;
          e3 = async_on_remove hd3 e2
      in (e3, s3))"

subsection \<open>Delivering notifications\<close>

text \<open>
  A callback runs with the arguments of the notification and the hub as it is then.
\<close>

fun run_callback :: "env \<Rightarrow> hub \<Rightarrow> callback \<Rightarrow> string list \<Rightarrow> system \<Rightarrow> system" where
  "run_callback ev h Add_image_entity [mac] s = snd (async_add_image_entity ev h mac s)"
| "run_callback ev h (Async_write_ha_state m) [] s = async_write_ha_state m s"
| "run_callback ev h (Handle_blacklist_update m) [] s = handle_blacklist_update m s"
| "run_callback ev h cb args s = s"

definition deliver ::
  "env \<Rightarrow> hub \<Rightarrow> string \<Rightarrow> string list \<Rightarrow> system \<Rightarrow> handle \<times> string \<times> callback \<Rightarrow> system" where
  "deliver ev h signal args s sub =
     (if fst (snd sub) = signal then run_callback ev h (snd (snd sub)) args s else s)"

definition async_dispatcher_send :: "env \<Rightarrow> hub \<Rightarrow> string \<Rightarrow> string list \<Rightarrow> system \<Rightarrow> system" where
  "async_dispatcher_send ev h signal args s =
     foldl (deliver ev h signal args) s (dispatcher s)"

text \<open>
  What can happen to the system after set-up, whether the routine returned or raised: a notification is sent, at some state of the
  hub; the host attaches an entity; the host detaches an entity.
\<close>

datatype event = Notify hub string "string list" | Attach entity | Detach entity

fun step :: "env \<Rightarrow> system \<Rightarrow> event \<Rightarrow> system" where
  "step ev s (Notify h signal args) = async_dispatcher_send ev h signal args s"
| "step ev s (Attach e) = snd (async_added_to_hass ev e s)"
| "step ev s (Detach e) = snd (async_remove e s)"

definition run :: "env \<Rightarrow> event list \<Rightarrow> system \<Rightarrow> system" where
  "run ev evs s = foldl (step ev) s evs"

text \<open>The tag identifiers of the entities registered so far, in the order of registration.\<close>

definition entity_macs :: "system \<Rightarrow> string list" where
  "entity_macs s = map tag_mac (concat (add_entities_calls s))"

text \<open>The subscriptions whose callback is a method of the entity of a tag.\<close>

definition subscriptions_of :: "string \<Rightarrow> system \<Rightarrow> (handle \<times> string \<times> callback) list" where
  "subscriptions_of mac s = filter (\<lambda>sub. owner (snd (snd sub)) = Some mac) (dispatcher s)"

text \<open>The handles in the table were given out by the dispatcher.\<close>

definition handles_issued :: "system \<Rightarrow> bool" where
  "handles_issued s = list_all (\<lambda>sub. fst sub < next_handle s) (dispatcher s)"


subsection \<open>Notions used in the statements\<close>

text \<open>
  The tracking set and the registered entities agree: no tag identifier has two entities,
  and the identifiers with an entity are those of \<^verbatim>\<open>added_entities\<close>.
\<close>

definition tracking_inv :: "system \<Rightarrow> bool" where
  "tracking_inv s = (distinct (entity_macs s) \<and> set (entity_macs s) = added_entities s)"

text \<open>A tag identifier has no entity and is not in the tracking set.\<close>

definition absent :: "string \<Rightarrow> system \<Rightarrow> bool" where
  "absent t s = (t \<notin> added_entities s \<and> t \<notin> set (entity_macs s))"

text \<open>
  An event that leaves a blacklisted tag and the subscription of the set-up routine alone:
  a notification sent while the hub has the tag on its blacklist, the attachment of an
  entity, or the detachment of an entity that does not hold the handle of the routine's
  subscription (the routine gives that handle to \<^verbatim>\<open>entry.async_on_unload\<close>, to no entity).
\<close>

fun undisturbed :: "string \<Rightarrow> handle \<Rightarrow> event \<Rightarrow> bool" where
  "undisturbed t hdl (Notify h signal args) = (t \<in> set (get_blacklisted_tags h))"
| "undisturbed t hdl (Attach e) = True"
| "undisturbed t hdl (Detach e) = (hdl \<notin> set (on_remove e))"

text \<open>Any event but one: the host attaching an entity of the given tag.\<close>

fun not_attached_again :: "string \<Rightarrow> event \<Rightarrow> bool" where
  "not_attached_again mac (Notify h signal args) = True"
| "not_attached_again mac (Attach e) = (tag_mac e \<noteq> mac)"
| "not_attached_again mac (Detach e) = True"


text \<open>
  The three handles from \<open>n\<close> on name the subscriptions of the entity of a tag, and no
  others: every handle in the table has been given out, and a subscription belongs to the
  entity exactly when its handle is one of the three.
\<close>

definition owns :: "handle \<Rightarrow> string \<Rightarrow> system \<Rightarrow> bool" where
  "owns n mac s =
     (Suc (Suc (Suc n)) \<le> next_handle s \<and>
      list_all (\<lambda>sub. fst sub < next_handle s \<and>
                      ((owner (snd (snd sub)) = Some mac) = (fst sub \<in> {n, Suc n, Suc (Suc n)})))
        (dispatcher s))"

text \<open>Calls of \<^verbatim>\<open>async_image\<close> one after another, each with the file system of its time.\<close>

definition async_image_calls :: "env \<Rightarrow> filesystem list \<Rightarrow> entity \<Rightarrow> entity" where
  "async_image_calls ev fss e = foldl (\<lambda>e' fs. fst (snd (async_image ev fs e'))) e fss"

subsection \<open>Sample inputs\<close>

text \<open>
  A hub that knows the access point and two tags, the second of them blacklisted and
  without any field in its record; the same hub once the blacklist has been emptied; a hub
  that knows only the access point and the blacklisted tag; a hub that has the access
  point on its blacklist; a host in which nothing has happened yet; three file systems.
\<close>

definition sample_env :: env where
  "sample_env =
     \<lparr> DOMAIN = ''open_epaper_link'',
       SIGNAL_TAG_IMAGE_UPDATE = ''open_epaper_link_tag_image_update'',
       get_hw_string = (\<lambda>v. if v = PInt 0 then ''M2 1.54 inch'' else ''Unknown''),
       get_image_path = (\<lambda>key. ''/config/www/'' @ key @ ''.jpg'') \<rparr>"

definition sample_hub :: hub where
  "sample_hub =
     \<lparr> online = True,
       tags = [''ap'', ''AA01'', ''BB02''],
       blacklisted_tags = [''BB02''],
       tag_data = (\<lambda>mac. if mac = ''AA01''
                          then [''hw_type'' \<mapsto> PInt 1, ''tag_name'' \<mapsto> PStr ''Kitchen'']
                          else Map.empty) \<rparr>"

definition sample_hub_later :: hub where
  "sample_hub_later = sample_hub\<lparr>blacklisted_tags := []\<rparr>"

definition blacklisted_hub :: hub where
  "blacklisted_hub = sample_hub\<lparr>tags := [''ap'', ''BB02'']\<rparr>"


definition empty_system :: system where
  "empty_system =
     \<lparr> dispatcher = [], next_handle = 0, state_writes = [], add_entities_calls = [],
       on_unload = [], added_entities = {} \<rparr>"

definition fs_missing :: filesystem where
  "fs_missing = \<lparr> path_exists = (\<lambda>p. False), read_file = (\<lambda>p. Inl (OSError ''No such file'')) \<rparr>"

definition fs_unreadable :: filesystem where
  "fs_unreadable = \<lparr> path_exists = (\<lambda>p. True), read_file = (\<lambda>p. Inl (OSError ''Permission denied'')) \<rparr>"

definition fs_present :: filesystem where
  "fs_present = \<lparr> path_exists = (\<lambda>p. True), read_file = (\<lambda>p. Inr [255, 216, 255]) \<rparr>"

text \<open>
  Two entity objects, with the attributes that \<^verbatim>\<open>__init__\<close> assigns, and a system in which
  the first of them is registered and tracked.
\<close>

definition sample_entity :: entity where
  "sample_entity = init_attributes sample_env sample_hub ''AA01''"

definition other_entity :: entity where
  "other_entity = init_attributes sample_env sample_hub ''BB02''"

definition tracked_system :: system where
  "tracked_system =
     \<lparr> dispatcher = [(0, ''open_epaper_link_tag_discovered'', Add_image_entity)],
       next_handle = 1, state_writes = [],
       add_entities_calls = [[sample_entity]],
       on_unload = [0], added_entities = {''AA01''} \<rparr>"

text \<open>Sequences of events.\<close>

definition sample_events :: "event list" where
  "sample_events =
     [Notify sample_hub ''open_epaper_link_tag_discovered'' [''AA01''],
      Attach sample_entity,
      Notify sample_hub ''open_epaper_link_tag_discovered'' [''ap''],
      Notify sample_hub ''open_epaper_link_tag_discovered'' [''CC03''],
      Notify sample_hub ''open_epaper_link_blacklist_update'' [],
      Detach (sample_entity\<lparr>on_remove := [0, 1, 2]\<rparr>),
      Notify sample_hub ''open_epaper_link_tag_discovered'' [''CC03'']]"

definition quiet_events :: "event list" where
  "quiet_events =
     [Notify blacklisted_hub ''open_epaper_link_connection_status'' [],
      Attach sample_entity,
      Notify blacklisted_hub ''open_epaper_link_tag_discovered'' [''BB02''],
      Detach (sample_entity\<lparr>on_remove := [1, 2, 3]\<rparr>)]"

definition attached_events :: "event list" where
  "attached_events =
     [Attach other_entity,
      Notify sample_hub ''open_epaper_link_tag_image_update_AA01'' [],
      Notify sample_hub ''open_epaper_link_connection_status'' [],
      Notify sample_hub ''open_epaper_link_blacklist_update'' []]"

definition detached_events :: "event list" where
  "detached_events =
     [Notify sample_hub ''open_epaper_link_tag_image_update_AA01'' [],
      Notify sample_hub ''open_epaper_link_connection_status'' [],
      Notify sample_hub ''open_epaper_link_blacklist_update'' [],
      Detach (other_entity\<lparr>on_remove := [3, 4, 5]\<rparr>),
      Notify sample_hub ''open_epaper_link_connection_status'' []]"

section \<open>Auxiliary facts\<close>

subsection \<open>Folds\<close>

lemma foldl_invariant:
  assumes "P s" and "\<And>s' x. P s' \<Longrightarrow> x \<in> set xs \<Longrightarrow> P (f s' x)"
  shows "P (foldl f s xs)"
  using assms by (induction xs arbitrary: s) auto


subsection \<open>The constructor\<close>

lemma construction_raises:
  "OpenEPaperLinkImageEntity ev h mac =
     Inl (TypeError ''ImageEntity.__init__() missing 1 required positional argument: hass'')"
  by (simp add: OpenEPaperLinkImageEntity_def ImageEntity_init_def)

lemma constructed_tag_mac:
  "OpenEPaperLinkImageEntity ev h mac = Inr e \<Longrightarrow> tag_mac e = mac"
  by (auto simp: OpenEPaperLinkImageEntity_def init_attributes_def Let_def split: sum.splits)

lemma init_attributes_defaults:
  "tag_mac (init_attributes ev h mac) = mac
   \<and> (get_tag_data h mac ''hw_type'' = None \<longrightarrow>
        model (attr_device_info (init_attributes ev h mac)) = get_hw_string ev (PInt 0))
   \<and> (get_tag_data h mac ''tag_name'' = None \<longrightarrow>
        name (attr_device_info (init_attributes ev h mac)) = PStr mac)"
  by (simp add: init_attributes_def dict_get_def Let_def)

subsection \<open>What the operations change\<close>

lemma async_image_entity:
  "fst (snd (async_image ev fs e)) = e\<lparr>image_path := Some (resolved_path ev e)\<rparr>"
  by (auto simp: async_image_def resolved_path_def Let_def split: option.splits sum.splits exn.splits)

lemma async_image_calls_cached:
  "async_image_calls ev fss (e\<lparr>image_path := Some p\<rparr>) = e\<lparr>image_path := Some p\<rparr>"
  by (induction fss) (simp_all add: async_image_calls_def async_image_entity resolved_path_def)

lemma add_image_entity_cases:
  "async_add_image_entity ev h mac s = (None, s)
   \<or> (\<exists>err. async_add_image_entity ev h mac s = (Some err, s))
   \<or> (\<exists>e. mac \<notin> added_entities s \<and> mac \<noteq> ''ap'' \<and> mac \<notin> set (get_blacklisted_tags h)
          \<and> tag_mac e = mac
          \<and> async_add_image_entity ev h mac s =
              (None, s\<lparr>add_entities_calls := add_entities_calls s @ [[e]],
                       added_entities := insert mac (added_entities s)\<rparr>))"
proof (cases "mac \<in> added_entities s \<or> mac = ''ap'' \<or> mac \<in> set (get_blacklisted_tags h)")
  case True
  then show ?thesis by (auto simp: async_add_image_entity_def)
next
  case False
  show ?thesis
  proof (cases "OpenEPaperLinkImageEntity ev h mac")
    case (Inl err)
    with False show ?thesis by (simp add: async_add_image_entity_def)
  next
    case (Inr e)
    then have "tag_mac e = mac" by (rule constructed_tag_mac)
    moreover from Inr False have "async_add_image_entity ev h mac s =
        (None, s\<lparr>add_entities_calls := add_entities_calls s @ [[e]],
                 added_entities := insert mac (added_entities s)\<rparr>)"
      by (simp add: async_add_image_entity_def async_add_entities_def Let_def)
    ultimately show ?thesis using False by blast
  qed
qed

lemma add_image_entity_frame:
  "dispatcher (snd (async_add_image_entity ev h mac s)) = dispatcher s"
  "next_handle (snd (async_add_image_entity ev h mac s)) = next_handle s"
  "state_writes (snd (async_add_image_entity ev h mac s)) = state_writes s"
  "on_unload (snd (async_add_image_entity ev h mac s)) = on_unload s"
  using add_image_entity_cases [of ev h mac s] by auto

lemma add_image_entity_known:
  "mac \<in> added_entities s \<Longrightarrow> async_add_image_entity ev h mac s = (None, s)"
  by (simp add: async_add_image_entity_def)

lemma add_image_entity_ineligible:
  "mac = ''ap'' \<or> mac \<in> set (get_blacklisted_tags h) \<Longrightarrow>
     async_add_image_entity ev h mac s = (None, s)"
  by (auto simp: async_add_image_entity_def)


lemma write_state_frame:
  "dispatcher (async_write_ha_state m s) = dispatcher s"
  "next_handle (async_write_ha_state m s) = next_handle s"
  "add_entities_calls (async_write_ha_state m s) = add_entities_calls s"
  "added_entities (async_write_ha_state m s) = added_entities s"
  "entity_macs (async_write_ha_state m s) = entity_macs s"
  by (simp_all add: async_write_ha_state_def entity_macs_def)

lemma run_callback_cases:
  "run_callback ev h cb args s = s
   \<or> (\<exists>mac. cb = Add_image_entity \<and> args = [mac]
         \<and> run_callback ev h cb args s = snd (async_add_image_entity ev h mac s))
   \<or> (\<exists>m. owner cb = Some m \<and> args = []
         \<and> run_callback ev h cb args s = async_write_ha_state m s)"
  by (cases "(ev, h, cb, args, s)" rule: run_callback.cases) (auto simp: handle_blacklist_update_def)

lemma run_callback_dispatcher:
  "dispatcher (run_callback ev h cb args s) = dispatcher s \<and>
   next_handle (run_callback ev h cb args s) = next_handle s"
  using run_callback_cases [of ev h cb args s]
  by (auto simp: add_image_entity_frame write_state_frame)


lemma send_dispatcher:
  "dispatcher (async_dispatcher_send ev h signal args s) = dispatcher s \<and>
   next_handle (async_dispatcher_send ev h signal args s) = next_handle s"
  unfolding async_dispatcher_send_def
  by (rule foldl_invariant [where P = "\<lambda>s'. dispatcher s' = dispatcher s \<and> next_handle s' = next_handle s"])
     (auto simp: deliver_def run_callback_dispatcher)

lemma attach_result:
  "async_added_to_hass ev e s =
     (e\<lparr>on_remove := on_remove e @ [next_handle s, Suc (next_handle s), Suc (Suc (next_handle s))]\<rparr>,
      s\<lparr>dispatcher := dispatcher s @
           [(next_handle s, SIGNAL_TAG_IMAGE_UPDATE ev @ ''_'' @ tag_mac e, Async_write_ha_state (tag_mac e)),
            (Suc (next_handle s), DOMAIN ev @ ''_connection_status'', Async_write_ha_state (tag_mac e)),
            (Suc (Suc (next_handle s)), DOMAIN ev @ ''_blacklist_update'', Handle_blacklist_update (tag_mac e))],
        next_handle := Suc (Suc (Suc (next_handle s)))\<rparr>)"
  by (simp add: async_added_to_hass_def async_dispatcher_connect_def async_on_remove_def Let_def)

lemma unsubscribe_frame:
  "add_entities_calls (unsubscribe hdl s) = add_entities_calls s"
  "added_entities (unsubscribe hdl s) = added_entities s"
  "state_writes (unsubscribe hdl s) = state_writes s"
  "next_handle (unsubscribe hdl s) = next_handle s"
  by (simp_all add: unsubscribe_def)

lemma remove_frame:
  "add_entities_calls (snd (async_remove e s)) = add_entities_calls s \<and>
   added_entities (snd (async_remove e s)) = added_entities s \<and>
   state_writes (snd (async_remove e s)) = state_writes s \<and>
   next_handle (snd (async_remove e s)) = next_handle s"
  unfolding async_remove_def snd_conv
  by (rule foldl_invariant [where P = "\<lambda>s'. add_entities_calls s' = add_entities_calls s \<and>
   added_entities s' = added_entities s \<and>
   state_writes s' = state_writes s \<and>
   next_handle s' = next_handle s"]) (auto simp: unsubscribe_frame)

lemma remove_dispatcher:
  "dispatcher (snd (async_remove e s)) = filter (\<lambda>sub. fst sub \<notin> set (on_remove e)) (dispatcher s)"
proof -
  have "dispatcher (foldl (\<lambda>s' hdl. unsubscribe hdl s') s hs) = filter (\<lambda>sub. fst sub \<notin> set hs) (dispatcher s)" for hs
    by (induction hs arbitrary: s) (auto simp: unsubscribe_def intro: filter_cong)
  from this [of "rev (on_remove e)"] show ?thesis by (simp add: async_remove_def)
qed

lemma add_known_tags_invariant:
  assumes "P s" and "\<And>s' mac. P s' \<Longrightarrow> P (snd (async_add_image_entity ev h mac s'))"
  shows "P (snd (add_known_tags ev h macs s))"
  using assms(1)
proof (induction macs arbitrary: s)
  case Nil
  then show ?case by simp
next
  case (Cons mac macs)
  from Cons.prems have step: "P (snd (async_add_image_entity ev h mac s))"
    by (rule assms(2))
  show ?case
  proof (cases "async_add_image_entity ev h mac s")
    case (Pair outcome s')
    with step have "P s'" by simp
    with Pair Cons.IH [of s'] show ?thesis
      by (cases outcome) simp_all
  qed
qed

lemma add_known_tags_frame:
  "dispatcher (snd (add_known_tags ev h macs s)) = dispatcher s
   \<and> next_handle (snd (add_known_tags ev h macs s)) = next_handle s
   \<and> on_unload (snd (add_known_tags ev h macs s)) = on_unload s"
  by (rule add_known_tags_invariant [where P = "\<lambda>s'. dispatcher s' = dispatcher s
       \<and> next_handle s' = next_handle s \<and> on_unload s' = on_unload s"])
     (simp_all add: add_image_entity_frame)

lemma setup_state:
  "snd (async_setup_entry ev h s) =
     (if fst (async_setup_entry ev h s) = None
      then (snd (add_known_tags ev h (tags h) (s\<lparr>added_entities := {}\<rparr>)))
             \<lparr>dispatcher := dispatcher s @
                 [(next_handle s, DOMAIN ev @ ''_tag_discovered'', Add_image_entity)],
              next_handle := Suc (next_handle s),
              on_unload := on_unload s @ [next_handle s]\<rparr>
      else snd (add_known_tags ev h (tags h) (s\<lparr>added_entities := {}\<rparr>)))"
proof (cases "add_known_tags ev h (tags h) (s\<lparr>added_entities := {}\<rparr>)")
  case (Pair outcome s1)
  with add_known_tags_frame [of ev h "tags h" "s\<lparr>added_entities := {}\<rparr>"]
  have "dispatcher s1 = dispatcher s" "next_handle s1 = next_handle s" "on_unload s1 = on_unload s"
    by simp_all
  with Pair show ?thesis
    by (cases outcome)
       (simp_all add: async_setup_entry_def async_dispatcher_connect_def async_on_unload_def Let_def)
qed

lemma setup_invariant:
  assumes "P (s\<lparr>added_entities := {}\<rparr>)"
    and "\<And>s' mac. P s' \<Longrightarrow> P (snd (async_add_image_entity ev h mac s'))"
    and "\<And>s' d n u. P s' \<Longrightarrow> P (s'\<lparr>dispatcher := d, next_handle := n, on_unload := u\<rparr>)"
  shows "P (snd (async_setup_entry ev h s))"
proof -
  have "P (snd (add_known_tags ev h (tags h) (s\<lparr>added_entities := {}\<rparr>)))"
    using assms(1,2) by (rule add_known_tags_invariant)
  then show ?thesis
    by (simp add: setup_state assms(3))
qed

subsection \<open>One entity for each tracked tag\<close>

lemma add_image_entity_tracking:
  "tracking_inv s \<Longrightarrow> tracking_inv (snd (async_add_image_entity ev h mac s))"
proof -
  assume inv: "tracking_inv s"
  from add_image_entity_cases [of ev h mac s]
  consider "snd (async_add_image_entity ev h mac s) = s"
    | e where "mac \<notin> added_entities s" and "tag_mac e = mac"
        and "snd (async_add_image_entity ev h mac s) =
              s\<lparr>add_entities_calls := add_entities_calls s @ [[e]],
                added_entities := insert mac (added_entities s)\<rparr>"
    by auto
  then show ?thesis
  proof cases
    case 1
    with inv show ?thesis by simp
  next
    case 2
    from inv have "distinct (entity_macs s)" and "set (entity_macs s) = added_entities s"
      by (simp_all add: tracking_inv_def)
    with 2 show ?thesis
      by (simp add: tracking_inv_def entity_macs_def)
  qed
qed

lemma write_state_tracking:
  "tracking_inv s \<Longrightarrow> tracking_inv (async_write_ha_state m s)"
  by (simp add: tracking_inv_def write_state_frame)

lemma run_callback_tracking:
  "tracking_inv s \<Longrightarrow> tracking_inv (run_callback ev h cb args s)"
  using run_callback_cases [of ev h cb args s]
  by (auto simp: add_image_entity_tracking write_state_tracking)

lemma send_tracking:
  "tracking_inv s \<Longrightarrow> tracking_inv (async_dispatcher_send ev h signal args s)"
  unfolding async_dispatcher_send_def
  by (rule foldl_invariant) (auto simp: deliver_def run_callback_tracking)

lemma step_tracking: "tracking_inv s \<Longrightarrow> tracking_inv (step ev s x)"
proof (cases x)
  case (Notify h sg args)
  assume "tracking_inv s"
  then show ?thesis using Notify by (simp add: send_tracking)
next
  case (Attach e)
  assume "tracking_inv s"
  then show ?thesis using Attach by (simp add: attach_result tracking_inv_def entity_macs_def)
next
  case (Detach e)
  assume "tracking_inv s"
  then show ?thesis using Detach by (simp add: remove_frame tracking_inv_def entity_macs_def)
qed

lemma run_tracking: "tracking_inv s \<Longrightarrow> tracking_inv (run ev evs s)"
  unfolding run_def by (rule foldl_invariant) (auto simp: step_tracking)

lemma setup_tracking:
  assumes "add_entities_calls s = []"
  shows "tracking_inv (snd (async_setup_entry ev h s))"
proof (rule setup_invariant)
  show "tracking_inv (s\<lparr>added_entities := {}\<rparr>)"
    using assms by (simp add: tracking_inv_def entity_macs_def)
next
  fix s' :: system and mac
  assume "tracking_inv s'"
  then show "tracking_inv (snd (async_add_image_entity ev h mac s'))"
    by (rule add_image_entity_tracking)
next
  fix s' :: system and d n u
  assume "tracking_inv s'"
  then show "tracking_inv (s'\<lparr>dispatcher := d, next_handle := n, on_unload := u\<rparr>)"
    by (simp add: tracking_inv_def entity_macs_def)
qed

subsection \<open>Tags that stay without an entity\<close>

lemma add_image_entity_absent:
  assumes "absent t s" and "mac \<noteq> t \<or> t = ''ap'' \<or> t \<in> set (get_blacklisted_tags h)"
  shows "absent t (snd (async_add_image_entity ev h mac s))"
proof -
  from add_image_entity_cases [of ev h mac s]
  consider "snd (async_add_image_entity ev h mac s) = s"
    | e where "mac \<noteq> ''ap''" and "mac \<notin> set (get_blacklisted_tags h)" and "tag_mac e = mac"
        and "snd (async_add_image_entity ev h mac s) =
              s\<lparr>add_entities_calls := add_entities_calls s @ [[e]],
                added_entities := insert mac (added_entities s)\<rparr>"
    by auto
  then show ?thesis
  proof cases
    case 1
    with assms(1) show ?thesis by simp
  next
    case 2
    with assms(2) have "mac \<noteq> t" by auto
    moreover from assms(1) have "t \<notin> added_entities s" and "t \<notin> set (entity_macs s)"
      by (simp_all add: absent_def)
    ultimately show ?thesis
      using 2 by (auto simp: absent_def entity_macs_def)
  qed
qed

lemma write_state_absent: "absent t s \<Longrightarrow> absent t (async_write_ha_state m s)"
  by (simp add: absent_def write_state_frame)

lemma run_callback_absent:
  assumes "absent t s" and "t = ''ap'' \<or> t \<in> set (get_blacklisted_tags h)"
  shows "absent t (run_callback ev h cb args s)"
  using run_callback_cases [of ev h cb args s] assms
  by (auto simp: add_image_entity_absent write_state_absent)

lemma send_absent:
  assumes "absent t s" and "t = ''ap'' \<or> t \<in> set (get_blacklisted_tags h)"
  shows "absent t (async_dispatcher_send ev h signal args s)"
  unfolding async_dispatcher_send_def
  by (rule foldl_invariant) (use assms in \<open>auto simp: deliver_def run_callback_absent\<close>)

lemma step_absent:
  assumes "absent t s" and "t = ''ap'' \<or> undisturbed t hdl x"
  shows "absent t (step ev s x)"
proof (cases x)
  case (Notify h sg args)
  then show ?thesis using assms by (auto simp: send_absent)
next
  case (Attach e)
  then show ?thesis using assms by (simp add: attach_result absent_def entity_macs_def)
next
  case (Detach e)
  then show ?thesis using assms by (simp add: remove_frame absent_def entity_macs_def)
qed

lemma run_absent_ap: "absent ''ap'' s \<Longrightarrow> absent ''ap'' (run ev evs s)"
  unfolding run_def by (rule foldl_invariant) (auto simp: step_absent)


lemma setup_absent:
  assumes "t \<notin> set (entity_macs s)" and "t = ''ap'' \<or> t \<in> set (get_blacklisted_tags h)"
  shows "absent t (snd (async_setup_entry ev h s))"
proof (rule setup_invariant)
  show "absent t (s\<lparr>added_entities := {}\<rparr>)"
    using assms by (simp add: absent_def entity_macs_def)
next
  fix s' :: system and mac
  assume "absent t s'"
  then show "absent t (snd (async_add_image_entity ev h mac s'))"
    using assms(2) by (simp add: add_image_entity_absent)
qed (simp add: absent_def entity_macs_def)

subsection \<open>Delivery to the set-up routine\<close>







subsection \<open>Delivery to an entity\<close>

lemma send_no_write:
  assumes "subscriptions_of mac s = []"
  shows "filter (\<lambda>m. m = mac) (state_writes (async_dispatcher_send ev h signal args s)) =
         filter (\<lambda>m. m = mac) (state_writes s)"
  unfolding async_dispatcher_send_def
proof (rule foldl_invariant [where P = "\<lambda>s'. filter (\<lambda>m. m = mac) (state_writes s') =
         filter (\<lambda>m. m = mac) (state_writes s)"])
  fix s' :: system and sub
  assume keep: "filter (\<lambda>m. m = mac) (state_writes s') = filter (\<lambda>m. m = mac) (state_writes s)"
    and sub: "sub \<in> set (dispatcher s)"
  from sub assms have "owner (snd (snd sub)) \<noteq> Some mac"
    by (auto simp: subscriptions_of_def filter_empty_conv)
  then show "filter (\<lambda>m. m = mac) (state_writes (deliver ev h signal args s' sub)) =
        filter (\<lambda>m. m = mac) (state_writes s)"
    using keep run_callback_cases [of ev h "snd (snd sub)" args s']
    by (auto simp: deliver_def add_image_entity_frame async_write_ha_state_def)
qed simp

lemma step_unsubscribed:
  assumes "subscriptions_of mac s = []" and "not_attached_again mac x"
  shows "subscriptions_of mac (step ev s x) = []
       \<and> filter (\<lambda>m. m = mac) (state_writes (step ev s x)) = filter (\<lambda>m. m = mac) (state_writes s)"
proof (cases x)
  case (Notify h sg args)
  with assms show ?thesis
    by (simp add: send_no_write subscriptions_of_def send_dispatcher)
next
  case (Attach e)
  with assms show ?thesis
    by (simp add: attach_result subscriptions_of_def)
next
  case (Detach e)
  with assms show ?thesis
    by (simp add: remove_frame remove_dispatcher subscriptions_of_def filter_empty_conv)
qed

lemma run_no_write:
  assumes "subscriptions_of mac s = []" and "list_all (not_attached_again mac) evs"
  shows "subscriptions_of mac (run ev evs s) = []
       \<and> filter (\<lambda>m. m = mac) (state_writes (run ev evs s)) = filter (\<lambda>m. m = mac) (state_writes s)"
  unfolding run_def
proof (rule foldl_invariant [where P = "\<lambda>s'. subscriptions_of mac s' = [] \<and>
    filter (\<lambda>m. m = mac) (state_writes s') = filter (\<lambda>m. m = mac) (state_writes s)"])
  fix s' :: system and x
  assume keep: "subscriptions_of mac s' = [] \<and>
    filter (\<lambda>m. m = mac) (state_writes s') = filter (\<lambda>m. m = mac) (state_writes s)"
    and x: "x \<in> set evs"
  from x assms(2) have "not_attached_again mac x" by (simp add: list_all_iff)
  with keep step_unsubscribed [of mac s' x ev]
  show "subscriptions_of mac (step ev s' x) = [] \<and>
    filter (\<lambda>m. m = mac) (state_writes (step ev s' x)) = filter (\<lambda>m. m = mac) (state_writes s)"
    by simp
qed (use assms(1) in simp)

lemma attach_owns:
  assumes "handles_issued s" and "subscriptions_of (tag_mac e) s = []"
  shows "owns (next_handle s) (tag_mac e) (snd (async_added_to_hass ev e s))"
proof -
  have "fst sub < next_handle s \<and> owner (snd (snd sub)) \<noteq> Some (tag_mac e)"
    if "sub \<in> set (dispatcher s)" for sub
    using that assms by (auto simp: handles_issued_def subscriptions_of_def list_all_iff filter_empty_conv)
  then have "list_all (\<lambda>sub. fst sub < Suc (Suc (Suc (next_handle s))) \<and>
      ((owner (snd (snd sub)) = Some (tag_mac e)) =
        (fst sub \<in> {next_handle s, Suc (next_handle s), Suc (Suc (next_handle s))})))
    (dispatcher s)"
    unfolding list_all_iff by fastforce
  then show ?thesis
    by (simp add: owns_def attach_result)
qed

lemma step_owns:
  assumes "owns n mac s" and "not_attached_again mac x"
  shows "owns n mac (step ev s x)"
proof (cases x)
  case (Notify h sg args)
  with assms show ?thesis by (simp add: owns_def send_dispatcher)
next
  case (Attach e)
  with assms show ?thesis
    by (auto simp: owns_def attach_result list_all_iff)
next
  case (Detach e)
  with assms show ?thesis
    by (auto simp: owns_def remove_dispatcher remove_frame list_all_iff)
qed

lemma run_owns:
  assumes "owns n mac s" and "list_all (not_attached_again mac) evs"
  shows "owns n mac (run ev evs s)"
  unfolding run_def
  by (rule foldl_invariant) (use assms in \<open>auto simp: list_all_iff intro: step_owns\<close>)

lemma detach_owned:
  assumes "owns n mac s" and "on_remove e = [n, Suc n, Suc (Suc n)]"
  shows "dispatcher (snd (async_remove e s)) =
           filter (\<lambda>sub. owner (snd (snd sub)) \<noteq> Some mac) (dispatcher s)"
  using assms
  by (auto simp: remove_dispatcher owns_def list_all_iff intro!: filter_cong)

subsection \<open>The sample inputs, evaluated\<close>

lemma sample_setup_raises:
  "fst (async_setup_entry sample_env sample_hub empty_system) =
     Some (TypeError ''ImageEntity.__init__() missing 1 required positional argument: hass'')"
  by code_simp

lemma sample_run_macs:
  "entity_macs (run sample_env sample_events
     (snd (async_setup_entry sample_env sample_hub empty_system))) = []"
  by code_simp

lemma sample_attached_writes:
  "state_writes (run sample_env attached_events
      (snd (async_added_to_hass sample_env sample_entity empty_system))) =
      [''AA01'', ''AA01'', ''BB02'', ''AA01'', ''BB02'']"
  by code_simp

lemma sample_detached_writes:
  "state_writes (run sample_env detached_events (snd (async_remove
      (fst (async_added_to_hass sample_env sample_entity empty_system))
      (run sample_env attached_events
         (snd (async_added_to_hass sample_env sample_entity empty_system)))))) =
      [''AA01'', ''AA01'', ''BB02'', ''AA01'', ''BB02'', ''BB02'', ''BB02'']"
  by code_simp

lemma sample_discovery_raises:
  "async_add_image_entity sample_env sample_hub_later ''BB02''
     (run sample_env quiet_events (snd (async_setup_entry sample_env blacklisted_hub empty_system)))
   = (Some (TypeError ''ImageEntity.__init__() missing 1 required positional argument: hass''),
      run sample_env quiet_events (snd (async_setup_entry sample_env blacklisted_hub empty_system)))"
  by code_simp

section \<open>The claims\<close>

subsection \<open>Availability\<close>

text \<open>
  Claim C1. For every tag identifier, \<^verbatim>\<open>available\<close> is true if and only if the hub
  reports connected, the identifier is among the hub's known tags and the identifier is not
  on the hub's blacklist. The value is computed from the hub as it is at the query: the
  entity has no field for it, and neither \<^verbatim>\<open>async_image\<close> nor \<^verbatim>\<open>async_added_to_hass\<close>,
  the two methods that assign fields of the entity, changes the answer.
\<close>

theorem available_iff:
  "(available h e \<longleftrightarrow>
      online h \<and> tag_mac e \<in> set (tags h) \<and> tag_mac e \<notin> set (get_blacklisted_tags h))
   \<and> available h (fst (snd (async_image ev fs e))) = available h e
   \<and> available h (fst (async_added_to_hass ev e s)) = available h e"
  by (simp add: available_def async_image_entity attach_result)

text \<open>
  The same entity queried at four states of the hub: available; then unavailable with
  the hub offline, with the tag blacklisted, and with the tag no longer known.
\<close>

theorem available_iff_witness:
  "available sample_hub sample_entity \<and> \<not> available (sample_hub\<lparr>online := False\<rparr>) sample_entity
   \<and> \<not> available (sample_hub\<lparr>blacklisted_tags := [''AA01'']\<rparr>) sample_entity
   \<and> \<not> available (sample_hub\<lparr>tags := [''ap'']\<rparr>) sample_entity"
  using available_iff [of sample_hub sample_entity sample_env fs_missing empty_system]
        available_iff [of "sample_hub\<lparr>online := False\<rparr>" sample_entity sample_env fs_missing empty_system]
        available_iff [of "sample_hub\<lparr>blacklisted_tags := [''AA01'']\<rparr>" sample_entity sample_env fs_missing empty_system]
        available_iff [of "sample_hub\<lparr>tags := [''ap'']\<rparr>" sample_entity sample_env fs_missing empty_system]
  by (simp add: sample_env_def sample_hub_def sample_entity_def init_attributes_def get_blacklisted_tags_def Let_def)

subsection \<open>The image accessor\<close>

text \<open>
  Claim C2, as stated, fails: the path of the sample entity names an existing file, the
  read raises \<^verbatim>\<open>OSError\<close> (no read permission), and the accessor returns \<^verbatim>\<open>None\<close>
  instead of the contents of the file.
\<close>

theorem async_image_unreadable_file:
  "path_exists fs_unreadable (resolved_path sample_env sample_entity)
   \<and> read_file fs_unreadable (resolved_path sample_env sample_entity) =
       Inl (OSError ''Permission denied'')
   \<and> fst (async_image sample_env fs_unreadable sample_entity) = Inr None"
  by (simp add: sample_env_def sample_hub_def sample_entity_def fs_unreadable_def async_image_def resolved_path_def init_attributes_def Let_def)

text \<open>
  Claim C2, amended. For every entity whose resolved image path names an existing file
  that is read without error, the accessor returns exactly the bytes read, the full
  contents of the file, and logs nothing.
\<close>

theorem async_image_returns_contents:
  assumes "path_exists fs (resolved_path ev e)"
    and "read_file fs (resolved_path ev e) = Inr content"
  shows "fst (async_image ev fs e) = Inr (Some content) \<and> snd (snd (async_image ev fs e)) = []"
  using assms
  by (auto simp: async_image_def resolved_path_def Let_def split: option.splits)

theorem async_image_returns_contents_witness:
  "path_exists fs_present (resolved_path sample_env sample_entity)
   \<and> read_file fs_present (resolved_path sample_env sample_entity) = Inr [255, 216, 255]
   \<and> fst (async_image sample_env fs_present sample_entity) = Inr (Some [255, 216, 255])
   \<and> snd (snd (async_image sample_env fs_present sample_entity)) = []"
proof -
  have h1: "path_exists fs_present (resolved_path sample_env sample_entity)"
    by (simp add: fs_present_def)
  have h2: "read_file fs_present (resolved_path sample_env sample_entity) = Inr [255, 216, 255]"
    by (simp add: fs_present_def)
  from async_image_returns_contents [OF h1 h2] h1 h2 show ?thesis by simp
qed

text \<open>
  Claim C3. If reading the image file fails with an I/O error, the accessor logs the
  failure, with the entity's id and the text of the error, and returns \<^verbatim>\<open>None\<close>: the
  outcome is a returned value, not a raised exception.
\<close>

theorem async_image_read_failure:
  assumes "path_exists fs (resolved_path ev e)"
    and "read_file fs (resolved_path ev e) = Inl (OSError msg)"
  shows "fst (async_image ev fs e) = Inr None
       \<and> snd (snd (async_image ev fs e)) =
           [Log_error ''Could not read image file for %s: %s'' [py_str (entity_id e), msg]]"
  using assms
  by (auto simp: async_image_def resolved_path_def Let_def split: option.splits)

theorem async_image_read_failure_witness:
  "path_exists fs_unreadable (resolved_path sample_env sample_entity)
   \<and> read_file fs_unreadable (resolved_path sample_env sample_entity) = Inl (OSError ''Permission denied'')
   \<and> fst (async_image sample_env fs_unreadable sample_entity) = Inr None
   \<and> snd (snd (async_image sample_env fs_unreadable sample_entity)) =
           [Log_error ''Could not read image file for %s: %s'' [''None'', ''Permission denied'']]"
proof -
  have h1: "path_exists fs_unreadable (resolved_path sample_env sample_entity)"
    by (simp add: fs_unreadable_def)
  have h2: "read_file fs_unreadable (resolved_path sample_env sample_entity) = Inl (OSError ''Permission denied'')"
    by (simp add: fs_unreadable_def)
  have h3: "py_str (entity_id sample_entity) = ''None''"
    by (simp add: sample_entity_def init_attributes_def py_str_def Let_def)
  from async_image_read_failure [OF h1 h2] h1 h2 h3 show ?thesis by simp
qed

text \<open>
  Claim C4. If the resolved image path names no existing file, the accessor returns
  \<^verbatim>\<open>None\<close> without raising, and without logging.
\<close>

theorem async_image_missing_file:
  assumes "\<not> path_exists fs (resolved_path ev e)"
  shows "fst (async_image ev fs e) = Inr None \<and> snd (snd (async_image ev fs e)) = []"
  using assms
  by (auto simp: async_image_def resolved_path_def Let_def split: option.splits)

theorem async_image_missing_file_witness:
  "\<not> path_exists fs_missing (resolved_path sample_env sample_entity)
   \<and> fst (async_image sample_env fs_missing sample_entity) = Inr None
   \<and> snd (snd (async_image sample_env fs_missing sample_entity)) = []"
proof -
  have h1: "\<not> path_exists fs_missing (resolved_path sample_env sample_entity)"
    by (simp add: fs_missing_def)
  from async_image_missing_file [OF h1] h1 show ?thesis by simp
qed

text \<open>
  Claim C9. The assignments of \<^verbatim>\<open>__init__\<close> leave the image path unset. The first call
  of the accessor resolves the path from the key \<^verbatim>\<open>DOMAIN.tag_mac\<close> and stores it,
  changing no other field; a call on an entity with a stored path leaves the entity as it
  is; so after the first call, any number of later calls, whatever the file system holds,
  leave the entity unchanged.
\<close>

theorem image_path_cached:
  "image_path (init_attributes ev h mac) = None
   \<and> fst (snd (async_image ev fs (e\<lparr>image_path := None\<rparr>))) =
       e\<lparr>image_path := Some (get_image_path ev (DOMAIN ev @ ''.'' @ tag_mac e))\<rparr>
   \<and> fst (snd (async_image ev fs (e\<lparr>image_path := Some p\<rparr>))) = e\<lparr>image_path := Some p\<rparr>
   \<and> async_image_calls ev fss (fst (snd (async_image ev fs e))) = fst (snd (async_image ev fs e))"
  by (simp add: async_image_entity resolved_path_def async_image_calls_cached
        init_attributes_def Let_def)

text \<open>
  The sample entity: the first call stores the path of its key, and two later calls, made
  when the file has appeared and when it cannot be read, leave the entity as the first
  call left it.
\<close>

theorem image_path_cached_witness:
  "image_path sample_entity = None
   \<and> image_path (fst (snd (async_image sample_env fs_missing sample_entity))) =
       Some ''/config/www/open_epaper_link.AA01.jpg''
   \<and> async_image_calls sample_env [fs_present, fs_unreadable]
        (fst (snd (async_image sample_env fs_missing sample_entity))) =
       fst (snd (async_image sample_env fs_missing sample_entity))"
proof -
  note cached = image_path_cached [of sample_env sample_hub "''AA01''" fs_missing sample_entity
      "''/tmp/x.jpg''" "[fs_present, fs_unreadable]"]
  have h0: "image_path sample_entity = None"
    using cached by (simp add: sample_entity_def)
  have h1: "sample_entity\<lparr>image_path := None\<rparr> = sample_entity"
    by (simp add: sample_entity_def init_attributes_def Let_def)
  have h2: "get_image_path sample_env (DOMAIN sample_env @ ''.'' @ tag_mac sample_entity) =
      ''/config/www/open_epaper_link.AA01.jpg''"
    by (simp add: sample_entity_def sample_env_def init_attributes_def Let_def)
  from cached
  have "fst (snd (async_image sample_env fs_missing (sample_entity\<lparr>image_path := None\<rparr>))) =
      sample_entity\<lparr>image_path :=
        Some (get_image_path sample_env (DOMAIN sample_env @ ''.'' @ tag_mac sample_entity))\<rparr>"
    by blast
  then have first: "image_path (fst (snd (async_image sample_env fs_missing sample_entity))) =
      Some ''/config/www/open_epaper_link.AA01.jpg''"
    unfolding h1 h2 by simp
  from cached
  have later: "async_image_calls sample_env [fs_present, fs_unreadable]
        (fst (snd (async_image sample_env fs_missing sample_entity))) =
       fst (snd (async_image sample_env fs_missing sample_entity))"
    by blast
  from h0 first later show ?thesis by blast
qed

subsection \<open>Construction\<close>

text \<open>
  Claim C10 says that construction succeeds when the tag record lacks fields, with the
  hardware type 0 and the tag identifier as the name. The code does not get that far:
  \<^verbatim>\<open>__init__\<close> first calls the base constructor without its required argument
  \<^verbatim>\<open>hass\<close>, which raises \<^verbatim>\<open>TypeError\<close>, here for a tag whose record has neither
  field. The assignments that would follow do give the two defaults
  (\<open>init_attributes_defaults\<close>), but they are not reached.
\<close>

theorem entity_construction_raises:
  "get_tag_data sample_hub ''BB02'' ''hw_type'' = None
   \<and> get_tag_data sample_hub ''BB02'' ''tag_name'' = None
   \<and> OpenEPaperLinkImageEntity sample_env sample_hub ''BB02'' =
       Inl (TypeError ''ImageEntity.__init__() missing 1 required positional argument: hass'')"
  by (simp add: construction_raises get_tag_data_def sample_hub_def)

subsection \<open>The set-up routine\<close>

text \<open>
  Claim C5. For a tag identifier that is in the tracking set, the add-entity path changes
  nothing and returns: no entity is created, \<^verbatim>\<open>async_add_entities\<close> is not called and the
  tracking set stays as it is. Hence, from a platform without entities, after the set-up
  routine, returned or raised, and any events that follow it, no tag identifier has two
  entities, and the identifiers with an entity are those of the tracking set.
\<close>

theorem add_entity_idempotent:
  assumes "mac \<in> added_entities s" and "add_entities_calls s0 = []"
  shows "async_add_image_entity ev h mac s = (None, s)
       \<and> distinct (entity_macs (run ev evs (snd (async_setup_entry ev h0 s0))))
       \<and> set (entity_macs (run ev evs (snd (async_setup_entry ev h0 s0)))) =
           added_entities (run ev evs (snd (async_setup_entry ev h0 s0)))"
proof -
  have "tracking_inv (run ev evs (snd (async_setup_entry ev h0 s0)))"
    using assms(2) by (intro run_tracking setup_tracking)
  then show ?thesis
    using assms(1) by (simp add: add_image_entity_known tracking_inv_def)
qed

theorem add_entity_idempotent_witness:
  "''AA01'' \<in> added_entities tracked_system
   \<and> add_entities_calls empty_system = []
   \<and> async_add_image_entity sample_env sample_hub_later ''AA01'' tracked_system
      = (None, tracked_system)
   \<and> distinct (entity_macs (run sample_env sample_events
        (snd (async_setup_entry sample_env sample_hub empty_system))))"
proof -
  have h1: "''AA01'' \<in> added_entities tracked_system"
    by (simp add: tracked_system_def)
  have h2: "add_entities_calls empty_system = []"
    by (simp add: empty_system_def)
  from add_entity_idempotent [OF h1 h2, of sample_env sample_hub_later sample_events sample_hub]
    h1 h2
  show ?thesis by simp
qed




text \<open>
  Claim C7. The add-entity path called with the access-point identifier returns without
  creating, registering or tracking anything. So neither the start-up enumeration nor any
  notification that follows gives the access point an entity.
\<close>

theorem access_point_never_added:
  assumes "''ap'' \<notin> set (entity_macs s0)"
  shows "async_add_image_entity ev h ''ap'' s = (None, s)
       \<and> ''ap'' \<notin> added_entities (run ev evs (snd (async_setup_entry ev h0 s0)))
       \<and> ''ap'' \<notin> set (entity_macs (run ev evs (snd (async_setup_entry ev h0 s0))))"
proof -
  have "absent ''ap'' (run ev evs (snd (async_setup_entry ev h0 s0)))"
    using assms by (intro run_absent_ap setup_absent) simp_all
  then show ?thesis
    by (simp add: add_image_entity_ineligible absent_def)
qed

theorem access_point_never_added_witness:
  "''ap'' \<notin> set (entity_macs empty_system)
   \<and> ''ap'' \<in> set (tags sample_hub)
   \<and> async_add_image_entity sample_env sample_hub ''ap'' empty_system = (None, empty_system)
   \<and> ''ap'' \<notin> added_entities (run sample_env sample_events
        (snd (async_setup_entry sample_env sample_hub empty_system)))
   \<and> ''ap'' \<notin> set (entity_macs (run sample_env sample_events
        (snd (async_setup_entry sample_env sample_hub empty_system))))
   \<and> Notify sample_hub ''open_epaper_link_tag_discovered'' [''ap''] \<in> set sample_events"
proof -
  have h1: "''ap'' \<notin> set (entity_macs empty_system)"
    by (simp add: entity_macs_def empty_system_def)
  have h2: "''ap'' \<in> set (tags sample_hub)"
    by (simp add: sample_hub_def)
  have h3: "Notify sample_hub ''open_epaper_link_tag_discovered'' [''ap''] \<in> set sample_events"
    by (simp add: sample_events_def)
  from access_point_never_added [OF h1, of sample_env sample_hub empty_system sample_events sample_hub]
    h1 h2 h3
  show ?thesis by simp
qed

subsection \<open>Subscriptions\<close>

text \<open>
  Claim C8. Attaching an entity adds exactly three subscriptions: to the image update of
  its own identifier, to the connection status and to the blacklist update; the entity
  holds their three handles. Whatever happens in between (notifications, other entities
  attached and detached), detaching the entity releases all of its subscriptions and no
  other. From then on, as long as no entity of the same tag is attached again, no
  notification makes the entity write its state.
\<close>

theorem subscriptions_released:
  fixes ev :: env and e :: entity and s :: system and evs evs' :: "event list"
  assumes "handles_issued s" and "subscriptions_of (tag_mac e) s = []" and "on_remove e = []"
    and "list_all (not_attached_again (tag_mac e)) evs"
    and "list_all (not_attached_again (tag_mac e)) evs'"
  defines "n \<equiv> next_handle s"
  defines "e1 \<equiv> fst (async_added_to_hass ev e s)"
  defines "s1 \<equiv> snd (async_added_to_hass ev e s)"
  defines "s2 \<equiv> run ev evs (snd (async_added_to_hass ev e s))"
  defines "e3 \<equiv> fst (async_remove (fst (async_added_to_hass ev e s))
                        (run ev evs (snd (async_added_to_hass ev e s))))"
  defines "s3 \<equiv> snd (async_remove (fst (async_added_to_hass ev e s))
                        (run ev evs (snd (async_added_to_hass ev e s))))"
  shows "dispatcher s1 = dispatcher s @
           [(n, SIGNAL_TAG_IMAGE_UPDATE ev @ ''_'' @ tag_mac e, Async_write_ha_state (tag_mac e)),
            (Suc n, DOMAIN ev @ ''_connection_status'', Async_write_ha_state (tag_mac e)),
            (Suc (Suc n), DOMAIN ev @ ''_blacklist_update'', Handle_blacklist_update (tag_mac e))]
       \<and> on_remove e1 = [n, Suc n, Suc (Suc n)]
       \<and> on_remove e3 = []
       \<and> dispatcher s3 =
           filter (\<lambda>sub. owner (snd (snd sub)) \<noteq> Some (tag_mac e)) (dispatcher s2)
       \<and> subscriptions_of (tag_mac e) s3 = []
       \<and> subscriptions_of (tag_mac e) (run ev evs' s3) = []
       \<and> filter (\<lambda>m. m = tag_mac e) (state_writes (run ev evs' s3)) =
           filter (\<lambda>m. m = tag_mac e) (state_writes s3)"
proof -
  have attach: "dispatcher s1 = dispatcher s @
           [(n, SIGNAL_TAG_IMAGE_UPDATE ev @ ''_'' @ tag_mac e, Async_write_ha_state (tag_mac e)),
            (Suc n, DOMAIN ev @ ''_connection_status'', Async_write_ha_state (tag_mac e)),
            (Suc (Suc n), DOMAIN ev @ ''_blacklist_update'', Handle_blacklist_update (tag_mac e))]"
    and handles: "on_remove e1 = [n, Suc n, Suc (Suc n)]"
    using assms(3) by (simp_all add: s1_def e1_def n_def attach_result)
  have "owns n (tag_mac e) (snd (async_added_to_hass ev e s))"
    unfolding n_def using assms(1,2) by (rule attach_owns)
  then have "owns n (tag_mac e) s2"
    unfolding s2_def using assms(4) by (rule run_owns)
  then have restored: "dispatcher s3 =
      filter (\<lambda>sub. owner (snd (snd sub)) \<noteq> Some (tag_mac e)) (dispatcher s2)"
    unfolding s3_def s2_def using handles [unfolded e1_def] by (rule detach_owned)
  then have none: "subscriptions_of (tag_mac e) s3 = []"
    by (simp add: subscriptions_of_def filter_empty_conv)
  have released: "on_remove e3 = []"
    by (simp add: e3_def async_remove_def)
  from none assms(5)
  have "subscriptions_of (tag_mac e) (run ev evs' s3) = []
        \<and> filter (\<lambda>m. m = tag_mac e) (state_writes (run ev evs' s3)) =
            filter (\<lambda>m. m = tag_mac e) (state_writes s3)"
    by (rule run_no_write)
  with attach handles released restored none show ?thesis by simp
qed

text \<open>
  Two entities attached, one after the other: the notifications make both write their
  state; once the first is detached, the same notifications make only the second write.
\<close>

theorem subscriptions_released_witness:
  "handles_issued empty_system \<and> subscriptions_of (tag_mac sample_entity) empty_system = []
   \<and> on_remove sample_entity = []
   \<and> list_all (not_attached_again (tag_mac sample_entity)) attached_events
   \<and> list_all (not_attached_again (tag_mac sample_entity)) detached_events
   \<and> Attach other_entity \<in> set attached_events
   \<and> state_writes (run sample_env attached_events
        (snd (async_added_to_hass sample_env sample_entity empty_system))) =
        [''AA01'', ''AA01'', ''BB02'', ''AA01'', ''BB02'']
   \<and> state_writes (run sample_env detached_events
        (snd (async_remove (fst (async_added_to_hass sample_env sample_entity empty_system))
           (run sample_env attached_events
              (snd (async_added_to_hass sample_env sample_entity empty_system)))))) =
        [''AA01'', ''AA01'', ''BB02'', ''AA01'', ''BB02'', ''BB02'', ''BB02'']
   \<and> subscriptions_of (tag_mac sample_entity)
        (snd (async_remove (fst (async_added_to_hass sample_env sample_entity empty_system))
           (run sample_env attached_events
              (snd (async_added_to_hass sample_env sample_entity empty_system))))) = []
   \<and> filter (\<lambda>m. m = tag_mac sample_entity)
        (state_writes (run sample_env detached_events
           (snd (async_remove (fst (async_added_to_hass sample_env sample_entity empty_system))
              (run sample_env attached_events
                 (snd (async_added_to_hass sample_env sample_entity empty_system)))))))
       = filter (\<lambda>m. m = tag_mac sample_entity)
        (state_writes
           (snd (async_remove (fst (async_added_to_hass sample_env sample_entity empty_system))
              (run sample_env attached_events
                 (snd (async_added_to_hass sample_env sample_entity empty_system))))))"
proof -
  have mac: "tag_mac sample_entity = ''AA01''"
    by (simp add: sample_entity_def init_attributes_def Let_def)
  have other: "tag_mac other_entity = ''BB02''"
    by (simp add: other_entity_def init_attributes_def Let_def)
  have h1: "handles_issued empty_system"
    by (simp add: handles_issued_def empty_system_def)
  have h2: "subscriptions_of (tag_mac sample_entity) empty_system = []"
    by (simp add: subscriptions_of_def empty_system_def)
  have h3: "on_remove sample_entity = []"
    by (simp add: sample_entity_def init_attributes_def Let_def)
  have h4: "list_all (not_attached_again (tag_mac sample_entity)) attached_events"
    by (simp add: attached_events_def mac other)
  have h5: "list_all (not_attached_again (tag_mac sample_entity)) detached_events"
    by (simp add: detached_events_def)
  have h6: "Attach other_entity \<in> set attached_events"
    by (simp add: attached_events_def)
  from subscriptions_released [OF h1 h2 h3 h4 h5, of sample_env] h1 h2 h3 h4 h5 h6
    sample_attached_writes sample_detached_writes
  show ?thesis by simp
qed

end
